theory Spec2Isabelle
  imports Main "HOL-Library.Monad_Syntax"
begin

section \<open>Node pages\<close>

text \<open>
  The tree of \<^verbatim>\<open>src/storage/index/b_plus_tree.cpp\<close> works on pages of a buffer pool.
  Keys are integers under their usual order, leaf values (record identifiers) and
  internal values (child page ids) are integers. C++ \<^verbatim>\<open>int\<close> indices and sizes
  are modelled as \<open>int\<close>: they are bounded by the number of slots of a page, so no
  arithmetic of the source wraps around.
\<close>

type_synonym page_id_t = int
type_synonym KeyType = int
type_synonym ValueType = int

text \<open>
  Modelled from the spec: \<open>INVALID_PAGE_ID\<close> is the reserved sentinel that is no
  page id of the pool; its declaration is not part of the source file. The value -1 is
  the page id of the end cursor in the source.
\<close>

definition INVALID_PAGE_ID :: page_id_t where
  "INVALID_PAGE_ID = -1"

datatype IndexPageType = INVALID_INDEX_PAGE | LEAF_PAGE | INTERNAL_PAGE

text \<open>
  A node page: the common header (\<open>page_type\<close>, \<open>cur_size\<close>, \<open>max_size\<close>), the
  leaf's \<open>next_page_id\<close>, and the slot array. The array is raw page memory: slots at and
  beyond \<open>cur_size\<close> keep whatever was last written there, so it is a total function
  from the slot index.
\<close>

record BPlusTreePage =
  page_type :: IndexPageType
  cur_size :: int
  max_size :: int
  next_page_id :: page_id_t
  key_array :: "int \<Rightarrow> KeyType"
  value_array :: "int \<Rightarrow> int"

text \<open>
  Modelled from the spec: the key comparator is a template parameter of the tree, not
  defined in the source file; the spec gives it as a three-way total order returning
  -1 / 0 / +1.
\<close>

definition comparator :: "KeyType \<Rightarrow> KeyType \<Rightarrow> int" where
  "comparator a b = (if a < b then -1 else if b < a then 1 else 0)"

text \<open>
  Modelled from the spec: the node accessors live in the page classes, which are not
  part of the source file. They read and write the fields named by the spec;
  \<open>GetMinSize\<close> is the spec's \<open>\<lceil>max_size / 2\<rceil>\<close>, and \<open>Init\<close> sets size 0, the
  capacity and, for a leaf, no next leaf.
\<close>

definition IsLeafPage :: "BPlusTreePage \<Rightarrow> bool" where
  "IsLeafPage p = (page_type p = LEAF_PAGE)"

definition SetPageType :: "BPlusTreePage \<Rightarrow> IndexPageType \<Rightarrow> BPlusTreePage" where
  "SetPageType p ty = p\<lparr>page_type := ty\<rparr>"

definition GetSize :: "BPlusTreePage \<Rightarrow> int" where
  "GetSize p = cur_size p"

definition SetSize :: "BPlusTreePage \<Rightarrow> int \<Rightarrow> BPlusTreePage" where
  "SetSize p n = p\<lparr>cur_size := n\<rparr>"

definition IncreaseSize :: "BPlusTreePage \<Rightarrow> int \<Rightarrow> BPlusTreePage" where
  "IncreaseSize p n = p\<lparr>cur_size := cur_size p + n\<rparr>"

definition GetMaxSize :: "BPlusTreePage \<Rightarrow> int" where
  "GetMaxSize p = max_size p"

definition GetMinSize :: "BPlusTreePage \<Rightarrow> int" where
  "GetMinSize p = (max_size p + 1) div 2"

definition KeyAt :: "BPlusTreePage \<Rightarrow> int \<Rightarrow> KeyType" where
  "KeyAt p i = key_array p i"

definition SetKeyAt :: "BPlusTreePage \<Rightarrow> int \<Rightarrow> KeyType \<Rightarrow> BPlusTreePage" where
  "SetKeyAt p i k = p\<lparr>key_array := (key_array p)(i := k)\<rparr>"

definition ValueAt :: "BPlusTreePage \<Rightarrow> int \<Rightarrow> int" where
  "ValueAt p i = value_array p i"

definition SetValueAt :: "BPlusTreePage \<Rightarrow> int \<Rightarrow> int \<Rightarrow> BPlusTreePage" where
  "SetValueAt p i v = p\<lparr>value_array := (value_array p)(i := v)\<rparr>"

definition GetNextPageId :: "BPlusTreePage \<Rightarrow> page_id_t" where
  "GetNextPageId p = next_page_id p"

definition SetNextPageId :: "BPlusTreePage \<Rightarrow> page_id_t \<Rightarrow> BPlusTreePage" where
  "SetNextPageId p n = p\<lparr>next_page_id := n\<rparr>"

definition Init :: "BPlusTreePage \<Rightarrow> int \<Rightarrow> BPlusTreePage" where
  "Init p m = p\<lparr>cur_size := 0, max_size := m, next_page_id := INVALID_PAGE_ID\<rparr>"

section \<open>The tree object, its header page and the paging service\<close>

text \<open>
  The state an operation works on: the two fan-out limits of the tree object, the
  header page's \<open>root_page_id\<close>, and the buffer pool (the pages by id and the next id
  the pool hands out).
\<close>

record BPlusTree =
  leaf_max_size :: int
  internal_max_size :: int
  root_page_id :: page_id_t
  pages :: "page_id_t \<Rightarrow> BPlusTreePage option"
  next_free_id :: page_id_t

text \<open>
  Modelled from the spec: the paging service is an external collaborator with the
  contract "allocate new page returning its id", "acquire guard on id" and
  "delete page". A new page is zeroed memory under a fresh id; fetching an id the
  pool does not hold fails (\<open>None\<close>); deleting returns the page to the pool.
  A guard gives access to the page in place; the model fetches a copy of the page,
  changes it and writes it back. Latches and pins are not modelled: the pages that one
  step holds at the same time (a page and its new sibling in \<^verbatim>\<open>Insert\<close>; a page,
  its parent and its left sibling in \<^verbatim>\<open>Remove\<close>) are different pages in every
  run and theorem below.
\<close>

definition blank_page :: BPlusTreePage where
  "blank_page = \<lparr>page_type = INVALID_INDEX_PAGE, cur_size = 0, max_size = 0,
     next_page_id = 0, key_array = (\<lambda>_. 0), value_array = (\<lambda>_. 0)\<rparr>"

definition NewPageGuarded :: "BPlusTree \<Rightarrow> page_id_t \<times> BPlusTree" where
  "NewPageGuarded t =
     (next_free_id t,
      t\<lparr>pages := (pages t)(next_free_id t \<mapsto> blank_page), next_free_id := next_free_id t + 1\<rparr>)"

definition FetchPage :: "BPlusTree \<Rightarrow> page_id_t \<Rightarrow> BPlusTreePage option" where
  "FetchPage t pid = pages t pid"

definition WritePage :: "BPlusTree \<Rightarrow> page_id_t \<Rightarrow> BPlusTreePage \<Rightarrow> BPlusTree" where
  "WritePage t pid p = t\<lparr>pages := (pages t)(pid \<mapsto> p)\<rparr>"

definition DeletePage :: "BPlusTree \<Rightarrow> page_id_t \<Rightarrow> BPlusTree" where
  "DeletePage t pid = t\<lparr>pages := (pages t)(pid := None)\<rparr>"

text \<open>The constructor: the header's root id starts as \<open>INVALID_PAGE_ID\<close>.\<close>

definition BPlusTree_new :: "int \<Rightarrow> int \<Rightarrow> BPlusTree" where
  "BPlusTree_new leaf_max internal_max =
     \<lparr>leaf_max_size = leaf_max, internal_max_size = internal_max,
      root_page_id = INVALID_PAGE_ID, pages = Map.empty, next_free_id = 0\<rparr>"

definition IsEmpty :: "BPlusTree \<Rightarrow> bool" where
  "IsEmpty t = (root_page_id t = INVALID_PAGE_ID)"

section \<open>Binary search within a node\<close>

text \<open>
  The \<^verbatim>\<open>while (l < r)\<close> loop shared by both \<^verbatim>\<open>BinaryFind\<close> overloads; it returns
  the final \<open>r\<close>. \<^verbatim>\<open>(l + r + 1) >> 1\<close> is \<open>drop_bit 1\<close>.
\<close>

function BinaryFind_loop :: "BPlusTreePage \<Rightarrow> KeyType \<Rightarrow> int \<Rightarrow> int \<Rightarrow> int" where
  "BinaryFind_loop page key l r =
     (if l < r then
        (let mid = drop_bit 1 (l + r + 1) in
         if comparator (KeyAt page mid) key \<noteq> 1
         then BinaryFind_loop page key mid r
         else BinaryFind_loop page key l (mid - 1))
      else r)"
  by pat_completeness auto
termination
  by (relation "measure (\<lambda>(page, key, l, r). nat (r - l))")
     (auto simp: drop_bit_eq_div)

declare BinaryFind_loop.simps [simp del]

definition BinaryFind_leaf :: "BPlusTreePage \<Rightarrow> KeyType \<Rightarrow> int" where
  "BinaryFind_leaf leaf_page key =
     (let r = BinaryFind_loop leaf_page key 0 (GetSize leaf_page - 1) in
      if r \<ge> 0 \<and> comparator (KeyAt leaf_page r) key = 1 then -1 else r)"

definition BinaryFind_internal :: "BPlusTreePage \<Rightarrow> KeyType \<Rightarrow> int" where
  "BinaryFind_internal internal_page key =
     (let r = BinaryFind_loop internal_page key 1 (GetSize internal_page - 1) in
      if r = -1 \<or> comparator (KeyAt internal_page r) key = 1 then 0 else r)"

section \<open>Search\<close>

text \<open>
  The descent loop of \<^verbatim>\<open>GetValue\<close>: fetch the page, stop at a leaf, otherwise
  follow the child chosen by the internal \<^verbatim>\<open>BinaryFind\<close>. \<open>None\<close> means the call
  does not return normally: the loop never reaches a leaf, or a page is fetched that
  the pool does not hold.
\<close>

partial_function (option) GetValue_loop ::
  "BPlusTree \<Rightarrow> page_id_t \<Rightarrow> KeyType \<Rightarrow> BPlusTreePage option" where
  "GetValue_loop t pid key =
     (case FetchPage t pid of
        None \<Rightarrow> None
      | Some tmp_page \<Rightarrow>
          if IsLeafPage tmp_page then Some tmp_page
          else GetValue_loop t (ValueAt tmp_page (BinaryFind_internal tmp_page key)) key)"

declare GetValue_loop.simps [code]

text \<open>
  \<^verbatim>\<open>GetValue(key, result)\<close> returns the flag and the result vector (the found
  value pushed at its back).
\<close>

definition GetValue ::
  "BPlusTree \<Rightarrow> KeyType \<Rightarrow> ValueType list \<Rightarrow> (bool \<times> ValueType list) option" where
  "GetValue t key result =
     (if root_page_id t = INVALID_PAGE_ID then Some (False, result)
      else
        (case GetValue_loop t (root_page_id t) key of
           None \<Rightarrow> None
         | Some leaf_page \<Rightarrow>
             (let slot_num = BinaryFind_leaf leaf_page key in
              if slot_num \<noteq> -1 \<and> comparator (KeyAt leaf_page slot_num) key = 0
              then Some (True, result @ [ValueAt leaf_page slot_num])
              else Some (False, result))))"

section \<open>Insertion\<close>

text \<open>The descent of \<^verbatim>\<open>Insert\<close>, which pushes every visited page id onto \<open>road\<close>.\<close>

partial_function (option) Insert_descend ::
  "BPlusTree \<Rightarrow> page_id_t \<Rightarrow> KeyType \<Rightarrow> page_id_t list \<Rightarrow> (page_id_t list \<times> BPlusTreePage) option"
  where
  "Insert_descend t pid key road =
     (case FetchPage t pid of
        None \<Rightarrow> None
      | Some tmp_page \<Rightarrow>
          if IsLeafPage tmp_page then Some (road, tmp_page)
          else
            (let slot_num = BinaryFind_internal tmp_page key in
             Insert_descend t (ValueAt tmp_page slot_num) key
               (road @ [ValueAt tmp_page slot_num])))"

declare Insert_descend.simps [code]

text \<open>
  \<^verbatim>\<open>for (j = 0; j < GetSize(); j++) if (comparator_(KeyAt(j), key) == 1) { pos = j; break; }\<close>
  with \<open>pos\<close> starting as \<open>GetSize()\<close>. Both the leaf and the internal level start
  at slot 0.
\<close>

function Insert_find_pos :: "BPlusTreePage \<Rightarrow> KeyType \<Rightarrow> int \<Rightarrow> int" where
  "Insert_find_pos page key j =
     (if j < GetSize page then
        (if comparator (KeyAt page j) key = 1 then j
         else Insert_find_pos page key (j + 1))
      else GetSize page)"
  by pat_completeness auto
termination
  by (relation "measure (\<lambda>(page, key, j). nat (GetSize page - j))") auto

declare Insert_find_pos.simps [simp del]

text \<open>
  \<^verbatim>\<open>for (j = GetSize() - 1; j > pos; j--) { SetKeyAt(j, KeyAt(j - 1)); SetValueAt(j, ValueAt(j - 1)); }\<close>
\<close>

function Insert_shift :: "BPlusTreePage \<Rightarrow> int \<Rightarrow> int \<Rightarrow> BPlusTreePage" where
  "Insert_shift page j pos =
     (if j > pos then
        Insert_shift
          (SetValueAt (SetKeyAt page j (KeyAt page (j - 1))) j (ValueAt page (j - 1)))
          (j - 1) pos
      else page)"
  by pat_completeness auto
termination
  by (relation "measure (\<lambda>(page, j, pos). nat (j - pos))") auto

declare Insert_shift.simps [simp del]

text \<open>
  \<^verbatim>\<open>for (j = half; j < src->GetSize(); j++) { dst->SetKeyAt(j - half, src->KeyAt(j)); dst->SetValueAt(j - half, src->ValueAt(j)); }\<close>
  the loop that moves the upper half of an overfull page into another page (used by
  both splits of \<^verbatim>\<open>Insert\<close> and both redistributions of \<^verbatim>\<open>Remove\<close>).
\<close>

function move_upper_half ::
  "BPlusTreePage \<Rightarrow> BPlusTreePage \<Rightarrow> int \<Rightarrow> int \<Rightarrow> BPlusTreePage" where
  "move_upper_half src dst half j =
     (if j < GetSize src then
        move_upper_half src
          (SetValueAt (SetKeyAt dst (j - half) (KeyAt src j)) (j - half) (ValueAt src j))
          half (j + 1)
      else dst)"
  by pat_completeness auto
termination
  by (relation "measure (\<lambda>(src, dst, half, j). nat (GetSize src - j))") auto

declare move_upper_half.simps [simp del]

text \<open>
  The insertion into the page of one level (the same statements at the leaf and at
  an internal level): find \<open>pos\<close>, grow by one, shift, store the pair.
\<close>

definition Insert_into_page :: "BPlusTreePage \<Rightarrow> KeyType \<Rightarrow> int \<Rightarrow> BPlusTreePage" where
  "Insert_into_page page key val =
     (let pos = Insert_find_pos page key 0;
          page = IncreaseSize page 1;
          page = Insert_shift page (GetSize page - 1) pos;
          page = SetKeyAt page pos key;
          page = SetValueAt page pos val
      in page)"

text \<open>
  The new root of a root split (the \<^verbatim>\<open>if (i == 0)\<close> blocks): slot 0 is
  (first key of the old root, old root id), slot 1 is the carried pair; the header is
  updated.
\<close>

definition Insert_new_root ::
  "BPlusTree \<Rightarrow> BPlusTreePage \<Rightarrow> page_id_t \<Rightarrow> KeyType \<Rightarrow> page_id_t \<Rightarrow> BPlusTree option" where
  "Insert_new_root t old_root old_root_id new_key new_page_id =
     (let (new_id, t) = NewPageGuarded t in
      case FetchPage t new_id of
        None \<Rightarrow> None
      | Some root_page \<Rightarrow>
          (let root_page = Init root_page (internal_max_size t);
               root_page = SetSize root_page 2;
               root_page = SetPageType root_page INTERNAL_PAGE;
               root_page = SetKeyAt root_page 0 (KeyAt old_root 0);
               root_page = SetValueAt root_page 0 old_root_id;
               root_page = SetKeyAt root_page 1 new_key;
               root_page = SetValueAt root_page 1 new_page_id
           in Some ((WritePage t new_id root_page)\<lparr>root_page_id := new_id\<rparr>)))"

text \<open>
  One level of the bottom-up loop, the leaf branch (\<open>is_leaf\<close>) or the internal
  branch. The result is the new state and the carried \<open>(new_key, new_page_id)\<close> when
  the page was split, or no carry when the size fits (\<^verbatim>\<open>return true\<close>).
\<close>

definition Insert_level ::
  "bool \<Rightarrow> BPlusTree \<Rightarrow> page_id_t \<Rightarrow> KeyType \<Rightarrow> int \<Rightarrow>
   (BPlusTree \<times> (KeyType \<times> page_id_t) option) option" where
  "Insert_level is_leaf t pid key val =
     (case FetchPage t pid of
        None \<Rightarrow> None
      | Some page \<Rightarrow>
          (let page = Insert_into_page page key val in
           if GetSize page \<le> GetMaxSize page then Some (WritePage t pid page, None)
           else
             (let (new_id, t) = NewPageGuarded t in
              case FetchPage t new_id of
                None \<Rightarrow> None
              | Some new_page \<Rightarrow>
                  (let new_page =
                         Init new_page (if is_leaf then leaf_max_size t else internal_max_size t);
                       new_page =
                         SetPageType new_page (if is_leaf then LEAF_PAGE else INTERNAL_PAGE);
                       new_page =
                         (if is_leaf then SetNextPageId new_page (GetNextPageId page)
                          else new_page);
                       page = (if is_leaf then SetNextPageId page new_id else page);
                       half = GetSize page div 2;
                       new_page = SetSize new_page (GetSize page - half);
                       new_page = move_upper_half page new_page half half;
                       page = SetSize page half;
                       new_key = KeyAt new_page 0;
                       t = WritePage (WritePage t pid page) new_id new_page
                   in Some (t, Some (new_key, new_id))))))"

text \<open>
  \<^verbatim>\<open>for (int i = road.size() - 1; i >= 0; i--)\<close>: the leaf level first, then the
  internal levels with the carried pair; a split at \<open>i = 0\<close> makes the new root and
  leaves the loop.
\<close>

function Insert_loop ::
  "BPlusTree \<Rightarrow> page_id_t list \<Rightarrow> int \<Rightarrow> KeyType \<Rightarrow> ValueType \<Rightarrow> KeyType \<Rightarrow> page_id_t \<Rightarrow>
   BPlusTree option" where
  "Insert_loop t road i key val new_key new_page_id =
     (if i < 0 then Some t
      else
        (case (if i = int (length road) - 1
               then Insert_level True t (road ! nat i) key val
               else Insert_level False t (road ! nat i) new_key new_page_id) of
           None \<Rightarrow> None
         | Some (t, None) \<Rightarrow> Some t
         | Some (t, Some (new_key, new_page_id)) \<Rightarrow>
             if i = 0 then
               (case FetchPage t (road ! nat i) of
                  None \<Rightarrow> None
                | Some page \<Rightarrow> Insert_new_root t page (road ! nat i) new_key new_page_id)
             else Insert_loop t road (i - 1) key val new_key new_page_id))"
  by pat_completeness auto
termination
  by (relation "measure (\<lambda>(t, road, i, key, val, new_key, new_page_id). nat (i + 1))") auto

declare Insert_loop.simps [simp del]

text \<open>
  \<^verbatim>\<open>Insert(key, value)\<close>: the returned flag and the state afterwards. An empty
  tree first gets a fresh leaf root.
\<close>

definition Insert_start :: "BPlusTree \<Rightarrow> BPlusTree option" where
  "Insert_start t =
     (if root_page_id t = INVALID_PAGE_ID then
        (let (new_id, t) = NewPageGuarded t;
             t = t\<lparr>root_page_id := new_id\<rparr> in
         case FetchPage t (root_page_id t) of
           None \<Rightarrow> None
         | Some root_page \<Rightarrow>
             (let root_page = Init root_page (leaf_max_size t);
                  root_page = SetPageType root_page LEAF_PAGE
              in Some (WritePage t (root_page_id t) root_page)))
      else Some t)"

definition Insert :: "BPlusTree \<Rightarrow> KeyType \<Rightarrow> ValueType \<Rightarrow> (bool \<times> BPlusTree) option" where
  "Insert t key val =
     (case Insert_start t of
        None \<Rightarrow> None
      | Some t \<Rightarrow>
          (case Insert_descend t (root_page_id t) key [root_page_id t] of
             None \<Rightarrow> None
           | Some (road, leaf_page) \<Rightarrow>
               (let slot_num = BinaryFind_leaf leaf_page key in
                if slot_num \<noteq> -1 \<and> comparator (KeyAt leaf_page slot_num) key = 0
                then Some (False, t)
                else
                  (case Insert_loop t road (int (length road) - 1) key val 0 INVALID_PAGE_ID of
                     None \<Rightarrow> None
                   | Some t \<Rightarrow> Some (True, t)))))"

section \<open>Removal\<close>

text \<open>
  The descent of \<^verbatim>\<open>Remove\<close>: \<open>road\<close> holds pairs (page id, slot); the slot of
  the last pair is overwritten with the routing slot before the child is pushed.
\<close>

partial_function (option) Remove_descend ::
  "BPlusTree \<Rightarrow> page_id_t \<Rightarrow> KeyType \<Rightarrow> (page_id_t \<times> int) list \<Rightarrow>
   ((page_id_t \<times> int) list \<times> BPlusTreePage) option" where
  "Remove_descend t pid key road =
     (case FetchPage t pid of
        None \<Rightarrow> None
      | Some tmp_page \<Rightarrow>
          if IsLeafPage tmp_page then Some (road, tmp_page)
          else
            (let slot_num = BinaryFind_internal tmp_page key;
                 road = butlast road @ [(fst (last road), slot_num)];
                 road = road @ [(ValueAt tmp_page slot_num, 0)]
             in Remove_descend t (ValueAt tmp_page slot_num) key road))"

declare Remove_descend.simps [code]

text \<open>
  \<^verbatim>\<open>for (j = slot; j < GetSize(); j++) { SetKeyAt(j, KeyAt(j + 1)); SetValueAt(j, ValueAt(j + 1)); }\<close>
  run after the size has been decreased.
\<close>

function Remove_shift :: "BPlusTreePage \<Rightarrow> int \<Rightarrow> BPlusTreePage" where
  "Remove_shift page j =
     (if j < GetSize page then
        Remove_shift
          (SetValueAt (SetKeyAt page j (KeyAt page (j + 1))) j (ValueAt page (j + 1)))
          (j + 1)
      else page)"
  by pat_completeness auto
termination
  by (relation "measure (\<lambda>(page, j). nat (GetSize page - j))")
     (auto simp: GetSize_def SetKeyAt_def SetValueAt_def)

declare Remove_shift.simps [simp del]

text \<open>
  The leaf merge loop:
  \<^verbatim>\<open>for (j = 0; j < leaf_page->GetSize(); j++) { sibling_page->SetKeyAt(j + leaf_page->GetSize(), leaf_page->KeyAt(j)); ... }\<close>
  The destination slot is offset by the size of the underfull leaf.
\<close>

function Remove_merge_leaf ::
  "BPlusTreePage \<Rightarrow> BPlusTreePage \<Rightarrow> int \<Rightarrow> BPlusTreePage" where
  "Remove_merge_leaf leaf_page sibling_page j =
     (if j < GetSize leaf_page then
        Remove_merge_leaf leaf_page
          (SetValueAt
             (SetKeyAt sibling_page (j + GetSize leaf_page) (KeyAt leaf_page j))
             (j + GetSize leaf_page) (ValueAt leaf_page j))
          (j + 1)
      else sibling_page)"
  by pat_completeness auto
termination
  by (relation "measure (\<lambda>(leaf_page, sibling_page, j). nat (GetSize leaf_page - j))") auto

declare Remove_merge_leaf.simps [simp del]

text \<open>
  The internal merge loop:
  \<^verbatim>\<open>for (j = 0; j < internal_page->GetSize(); j++) { sibling_page->SetKeyAt(j + sibling_page->GetSize(), internal_page->KeyAt(j)); ... }\<close>
  The sibling's size does not change while the loop runs.
\<close>

function Remove_merge_internal ::
  "BPlusTreePage \<Rightarrow> BPlusTreePage \<Rightarrow> int \<Rightarrow> BPlusTreePage" where
  "Remove_merge_internal internal_page sibling_page j =
     (if j < GetSize internal_page then
        Remove_merge_internal internal_page
          (SetValueAt
             (SetKeyAt sibling_page (j + GetSize sibling_page) (KeyAt internal_page j))
             (j + GetSize sibling_page) (ValueAt internal_page j))
          (j + 1)
      else sibling_page)"
  by pat_completeness auto
termination
  by (relation "measure (\<lambda>(internal_page, sibling_page, j). nat (GetSize internal_page - j))")
     auto

declare Remove_merge_internal.simps [simp del]

text \<open>
  The tail shared by both branches once the merged sibling is too large: the upper
  half of the sibling goes back into the page, and the parent's key at \<open>pos\<close> becomes
  the page's first key.
\<close>

definition Remove_redistribute ::
  "BPlusTree \<Rightarrow> page_id_t \<Rightarrow> BPlusTreePage \<Rightarrow> page_id_t \<Rightarrow> BPlusTreePage \<Rightarrow>
   page_id_t \<Rightarrow> BPlusTreePage \<Rightarrow> int \<Rightarrow> BPlusTree" where
  "Remove_redistribute t pid page sibling_id sibling_page parent_id parent_page pos =
     (let half = GetSize sibling_page div 2;
          page = SetSize page (GetSize sibling_page - half);
          page = move_upper_half sibling_page page half half;
          sibling_page = SetSize sibling_page half;
          parent_page = SetKeyAt parent_page pos (KeyAt page 0)
      in WritePage (WritePage (WritePage t pid page) sibling_id sibling_page)
           parent_id parent_page)"

text \<open>
  The leaf branch of the bottom-up loop of \<^verbatim>\<open>Remove\<close>. The flag of the result says
  whether the \<^verbatim>\<open>for\<close> loop goes on to \<open>i - 1\<close> (\<^verbatim>\<open>continue\<close>, or the end of the
  loop body is reached) or the function has returned.
\<close>

definition Remove_leaf_level ::
  "BPlusTree \<Rightarrow> (page_id_t \<times> int) list \<Rightarrow> int \<Rightarrow> (BPlusTree \<times> bool) option" where
  "Remove_leaf_level t road i =
     (let pid = fst (road ! nat i) in
      case FetchPage t pid of
        None \<Rightarrow> None
      | Some leaf_page \<Rightarrow>
          (let leaf_page = IncreaseSize leaf_page (-1);
               leaf_page = Remove_shift leaf_page (snd (road ! nat i));
               t = WritePage t pid leaf_page
           in
           if GetSize leaf_page \<ge> GetMinSize leaf_page then Some (t, False)
           else if i = 0 then
             (if GetSize leaf_page = 0
              then Some (DeletePage (t\<lparr>root_page_id := INVALID_PAGE_ID\<rparr>) pid, False)
              else Some (t, False))
           else
             (let parent_id = fst (road ! nat (i - 1)) in
              case FetchPage t parent_id of
                None \<Rightarrow> None
              | Some parent_page \<Rightarrow>
                  (let pos = snd (road ! nat (i - 1)) in
                   if pos \<noteq> 0 then
                     (let sibling_id = ValueAt parent_page (pos - 1) in
                      case FetchPage t sibling_id of
                        None \<Rightarrow> None
                      | Some sibling_page \<Rightarrow>
                          (let sibling_page = Remove_merge_leaf leaf_page sibling_page 0;
                               sibling_page = IncreaseSize sibling_page (GetSize leaf_page)
                           in
                           if GetSize sibling_page \<le> GetMaxSize sibling_page then
                             (let sibling_page =
                                    SetNextPageId sibling_page (GetNextPageId leaf_page)
                              in Some (DeletePage (WritePage t sibling_id sibling_page) pid, True))
                           else
                             Some (Remove_redistribute t pid leaf_page sibling_id sibling_page
                                     parent_id parent_page pos, False)))
                   else Some (t, True)))))"

text \<open>The internal branch of the same loop.\<close>

definition Remove_internal_level ::
  "BPlusTree \<Rightarrow> (page_id_t \<times> int) list \<Rightarrow> int \<Rightarrow> (BPlusTree \<times> bool) option" where
  "Remove_internal_level t road i =
     (let pid = fst (road ! nat i) in
      case FetchPage t pid of
        None \<Rightarrow> None
      | Some internal_page \<Rightarrow>
          (let internal_page = IncreaseSize internal_page (-1);
               internal_page = Remove_shift internal_page (snd (road ! nat i));
               t = WritePage t pid internal_page
           in
           if GetSize internal_page \<ge> GetMinSize internal_page then Some (t, False)
           else if i = 0 then
             (if GetSize internal_page = 1
              then Some (DeletePage (t\<lparr>root_page_id := ValueAt internal_page 0\<rparr>) pid, False)
              else Some (t, False))
           else
             (let parent_id = fst (road ! nat (i - 1)) in
              case FetchPage t parent_id of
                None \<Rightarrow> None
              | Some parent_page \<Rightarrow>
                  (let pos = snd (road ! nat (i - 1)) in
                   if pos \<noteq> 0 then
                     (let sibling_id = ValueAt parent_page (pos - 1) in
                      case FetchPage t sibling_id of
                        None \<Rightarrow> None
                      | Some sibling_page \<Rightarrow>
                          (let sibling_page =
                                 SetKeyAt sibling_page (GetSize sibling_page)
                                   (KeyAt parent_page (pos - 1));
                               sibling_page =
                                 SetValueAt sibling_page (GetSize sibling_page)
                                   (ValueAt internal_page 0);
                               sibling_page = IncreaseSize sibling_page 1;
                               sibling_page = Remove_merge_internal internal_page sibling_page 0;
                               sibling_page = IncreaseSize sibling_page (GetSize internal_page)
                           in
                           if GetSize sibling_page \<le> GetMaxSize sibling_page then
                             Some (DeletePage (WritePage t sibling_id sibling_page) pid, True)
                           else
                             Some (Remove_redistribute t pid internal_page sibling_id
                                     sibling_page parent_id parent_page pos, False)))
                   else Some (t, True)))))"

text \<open>\<^verbatim>\<open>for (int i = road.size() - 1; i >= 0; i--)\<close> of \<^verbatim>\<open>Remove\<close>.\<close>

function Remove_loop ::
  "BPlusTree \<Rightarrow> (page_id_t \<times> int) list \<Rightarrow> int \<Rightarrow> BPlusTree option" where
  "Remove_loop t road i =
     (if i < 0 then Some t
      else
        (case (if i = int (length road) - 1 then Remove_leaf_level t road i
               else Remove_internal_level t road i) of
           None \<Rightarrow> None
         | Some (t, go_on) \<Rightarrow> if go_on then Remove_loop t road (i - 1) else Some t))"
  by pat_completeness auto
termination
  by (relation "measure (\<lambda>(t, road, i). nat (i + 1))") auto

declare Remove_loop.simps [simp del]

text \<open>\<^verbatim>\<open>Remove(key)\<close>: the state afterwards.\<close>

definition Remove :: "BPlusTree \<Rightarrow> KeyType \<Rightarrow> BPlusTree option" where
  "Remove t key =
     (if root_page_id t = INVALID_PAGE_ID then Some t
      else
        (case Remove_descend t (root_page_id t) key [(root_page_id t, 0)] of
           None \<Rightarrow> None
         | Some (road, leaf_page) \<Rightarrow>
             (let slot_num = BinaryFind_leaf leaf_page key in
              if slot_num = -1 \<or> comparator (KeyAt leaf_page slot_num) key \<noteq> 0 then Some t
              else
                (let road = butlast road @ [(fst (last road), slot_num)]
                 in Remove_loop t road (int (length road) - 1)))))"

section \<open>Range cursor\<close>

text \<open>
  An \<^verbatim>\<open>INDEXITERATOR_TYPE(bpm_, page_id, slot)\<close> is the pair (page id, slot);
  \<^verbatim>\<open>End()\<close> is \<open>(-1, -1)\<close>.
\<close>

type_synonym IndexIterator = "page_id_t \<times> int"

definition End :: IndexIterator where
  "End = (-1, -1)"

text \<open>
  The descent of \<^verbatim>\<open>Begin(key)\<close>; \<open>Some None\<close> is the \<^verbatim>\<open>return End()\<close> inside
  the loop, \<open>Some (Some (pid, page))\<close> the leaf reached under page id \<open>pid\<close>.
\<close>

partial_function (option) Begin_loop ::
  "BPlusTree \<Rightarrow> page_id_t \<Rightarrow> KeyType \<Rightarrow> (page_id_t \<times> BPlusTreePage) option option" where
  "Begin_loop t pid key =
     (case FetchPage t pid of
        None \<Rightarrow> None
      | Some tmp_page \<Rightarrow>
          if IsLeafPage tmp_page then Some (Some (pid, tmp_page))
          else
            (let slot_num = BinaryFind_internal tmp_page key in
             if slot_num = -1 then Some None
             else Begin_loop t (ValueAt tmp_page slot_num) key))"

declare Begin_loop.simps [code]

definition Begin_key :: "BPlusTree \<Rightarrow> KeyType \<Rightarrow> IndexIterator option" where
  "Begin_key t key =
     (if root_page_id t = INVALID_PAGE_ID then Some End
      else
        (case Begin_loop t (root_page_id t) key of
           None \<Rightarrow> None
         | Some None \<Rightarrow> Some End
         | Some (Some (pid, leaf_page)) \<Rightarrow>
             (let slot_num = BinaryFind_leaf leaf_page key in
              if slot_num \<noteq> -1 then Some (pid, slot_num) else Some End)))"

section \<open>Test drivers\<close>

text \<open>
  \<^verbatim>\<open>InsertFromFile\<close> and \<^verbatim>\<open>RemoveFromFile\<close> read integer keys and insert
  (with \<^verbatim>\<open>RID(key)\<close> as the value) or remove them one by one; the file is the list
  of its keys. The flag returned by \<^verbatim>\<open>Insert\<close> is dropped, as in the source.
\<close>

fun InsertFromFile :: "BPlusTree \<Rightarrow> int list \<Rightarrow> BPlusTree option" where
  "InsertFromFile t [] = Some t"
| "InsertFromFile t (key # input) =
     (case Insert t key key of None \<Rightarrow> None | Some (_, t) \<Rightarrow> InsertFromFile t input)"

fun RemoveFromFile :: "BPlusTree \<Rightarrow> int list \<Rightarrow> BPlusTree option" where
  "RemoveFromFile t [] = Some t"
| "RemoveFromFile t (key # input) =
     (case Remove t key of None \<Rightarrow> None | Some t \<Rightarrow> RemoveFromFile t input)"

section \<open>Predicates and example data used by the statements\<close>

text \<open>
  The keys of the slots \<open>lo, ..., GetSize p - 1\<close> are strictly increasing under the
  comparator. A leaf is ordered from slot 0, an internal page from slot 1 (the key of
  its slot 0 is not used for routing).
\<close>

definition keys_increasing :: "BPlusTreePage \<Rightarrow> int \<Rightarrow> bool" where
  "keys_increasing p lo =
     sorted_wrt (\<lambda>a b. comparator a b = -1) (map (KeyAt p) [lo..GetSize p - 1])"

text \<open>A page holding the keys 1, 3, 5 (each with itself as value).\<close>

definition example_leaf :: BPlusTreePage where
  "example_leaf =
     \<lparr>page_type = LEAF_PAGE, cur_size = 3, max_size = 4, next_page_id = INVALID_PAGE_ID,
      key_array = (\<lambda>_. 0)(0 := 1, 1 := 3, 2 := 5),
      value_array = (\<lambda>_. 0)(0 := 1, 1 := 3, 2 := 5)\<rparr>"

text \<open>A tree whose root leaf (page 0) is full with the keys 1, 2, 3, 4.\<close>

definition full_leaf :: BPlusTreePage where
  "full_leaf =
     \<lparr>page_type = LEAF_PAGE, cur_size = 4, max_size = 4, next_page_id = INVALID_PAGE_ID,
      key_array = (\<lambda>_. 0)(0 := 1, 1 := 2, 2 := 3, 3 := 4),
      value_array = (\<lambda>_. 0)(0 := 1, 1 := 2, 2 := 3, 3 := 4)\<rparr>"

definition full_tree :: BPlusTree where
  "full_tree =
     \<lparr>leaf_max_size = 4, internal_max_size = 4, root_page_id = 0,
      pages = Map.empty(0 \<mapsto> full_leaf), next_free_id = 1\<rparr>"

text \<open>
  The tree the code builds from 1, 2, 3, 4, 5 (the spec's scenario 2): the root, page 2,
  is internal with the slots (1, page 0), (3, page 1); leaf 0 holds 1, 2 (and the stale
  slots left by the split), leaf 1 holds 3, 4, 5.
\<close>

definition split_left :: BPlusTreePage where
  "split_left =
     \<lparr>page_type = LEAF_PAGE, cur_size = 2, max_size = 4, next_page_id = 1,
      key_array = (\<lambda>_. 0)(0 := 1, 1 := 2, 2 := 3, 3 := 4, 4 := 5),
      value_array = (\<lambda>_. 0)(0 := 1, 1 := 2, 2 := 3, 3 := 4, 4 := 5)\<rparr>"

definition split_right :: BPlusTreePage where
  "split_right =
     \<lparr>page_type = LEAF_PAGE, cur_size = 3, max_size = 4, next_page_id = INVALID_PAGE_ID,
      key_array = (\<lambda>_. 0)(0 := 3, 1 := 4, 2 := 5),
      value_array = (\<lambda>_. 0)(0 := 3, 1 := 4, 2 := 5)\<rparr>"

definition split_root :: BPlusTreePage where
  "split_root =
     \<lparr>page_type = INTERNAL_PAGE, cur_size = 2, max_size = 4, next_page_id = INVALID_PAGE_ID,
      key_array = (\<lambda>_. 0)(0 := 1, 1 := 3),
      value_array = (\<lambda>_. 0)(0 := 0, 1 := 1)\<rparr>"

definition split_tree :: BPlusTree where
  "split_tree =
     \<lparr>leaf_max_size = 4, internal_max_size = 4, root_page_id = 2,
      pages = Map.empty(0 \<mapsto> split_left, 1 \<mapsto> split_right, 2 \<mapsto> split_root),
      next_free_id = 3\<rparr>"

text \<open>
  The pages below \<open>pid\<close> form a tree of height \<open>h\<close> with ordered leaves: at
  height 0 a leaf page of non-negative size whose keys are strictly increasing,
  otherwise an internal page with at least one slot whose children all have height
  \<open>h - 1\<close>.
\<close>

fun ordered_subtree :: "BPlusTree \<Rightarrow> nat \<Rightarrow> page_id_t \<Rightarrow> bool" where
  "ordered_subtree t 0 pid =
     (case FetchPage t pid of
        None \<Rightarrow> False
      | Some p \<Rightarrow> IsLeafPage p \<and> 0 \<le> GetSize p \<and> keys_increasing p 0)"
| "ordered_subtree t (Suc h) pid =
     (case FetchPage t pid of
        None \<Rightarrow> False
      | Some p \<Rightarrow>
          \<not> IsLeafPage p \<and> 1 \<le> GetSize p \<and>
          list_all (\<lambda>i. ordered_subtree t h (ValueAt p i)) [0..GetSize p - 1])"

section \<open>Binary search: the returned slot\<close>

lemma comparator_simps:
  "comparator a b = 1 \<longleftrightarrow> b < a"
  "comparator a b \<noteq> 1 \<longleftrightarrow> a \<le> b"
  "comparator a b = -1 \<longleftrightarrow> a < b"
  "comparator a b = 0 \<longleftrightarrow> a = b"
  by (auto simp: comparator_def)

lemma keys_increasingD:
  assumes "keys_increasing p lo" "lo \<le> i" "i < j" "j < GetSize p"
  shows "KeyAt p i < KeyAt p j"
proof -
  let ?xs = "map (KeyAt p) [lo..GetSize p - 1]"
  have a: "nat (i - lo) < nat (j - lo)" "nat (j - lo) < length ?xs"
    using assms by auto
  have "comparator (?xs ! nat (i - lo)) (?xs ! nat (j - lo)) = -1"
    using assms(1) a unfolding keys_increasing_def
    by (meson sorted_wrt_nth_less)
  moreover have "?xs ! nat (i - lo) = KeyAt p i" "?xs ! nat (j - lo) = KeyAt p j"
    using assms by (simp_all)
  ultimately show ?thesis by (simp add: comparator_simps)
qed

lemma BinaryFind_loop_correct:
  assumes "l \<le> r"
    and "\<And>i j. l \<le> i \<Longrightarrow> i < j \<Longrightarrow> j \<le> r \<Longrightarrow> KeyAt p i < KeyAt p j"
  shows "l \<le> BinaryFind_loop p k l r \<and> BinaryFind_loop p k l r \<le> r \<and>
         (\<forall>i. BinaryFind_loop p k l r < i \<and> i \<le> r \<longrightarrow> k < KeyAt p i) \<and>
         (l < BinaryFind_loop p k l r \<longrightarrow> KeyAt p (BinaryFind_loop p k l r) \<le> k)"
  using assms
proof (induction p k l r rule: BinaryFind_loop.induct)
  case (1 page key l r)
  show ?case
  proof (cases "l < r")
    case False
    with "1.prems" show ?thesis by (simp add: BinaryFind_loop.simps)
  next
    case True
    define mid where "mid = drop_bit 1 (l + r + 1)"
    have mid: "l < mid" "mid \<le> r" using True by (auto simp: mid_def drop_bit_eq_div)
    show ?thesis
    proof (cases "comparator (KeyAt page mid) key \<noteq> 1")
      case c: True
      define res where "res = BinaryFind_loop page key mid r"
      have eq: "BinaryFind_loop page key l r = res"
        using True c by (subst BinaryFind_loop.simps) (simp add: mid_def Let_def res_def)
      have ih: "mid \<le> res" "res \<le> r" "\<And>i. res < i \<Longrightarrow> i \<le> r \<Longrightarrow> key < KeyAt page i"
        "mid < res \<Longrightarrow> KeyAt page res \<le> key"
        using "1.IH"(1)[OF True mid_def c] mid "1.prems"(2) by (simp_all add: res_def)
      have "KeyAt page res \<le> key"
      proof (cases "mid = res")
        case True then show ?thesis using c by (simp add: comparator_simps)
      next
        case False then show ?thesis using ih(1,4) by simp
      qed
      then show ?thesis unfolding eq using ih(1,2,3) mid(1) by simp
    next
      case c: False
      define res where "res = BinaryFind_loop page key l (mid - 1)"
      have eq: "BinaryFind_loop page key l r = res"
        using True c by (subst BinaryFind_loop.simps) (simp add: mid_def Let_def res_def)
      have ih: "l \<le> res" "res \<le> mid - 1"
        "\<And>i. res < i \<Longrightarrow> i \<le> mid - 1 \<Longrightarrow> key < KeyAt page i"
        "l < res \<Longrightarrow> KeyAt page res \<le> key"
        using "1.IH"(2)[OF True mid_def c] mid "1.prems"(2) by (simp_all add: res_def)
      have big: "key < KeyAt page i" if "mid \<le> i" "i \<le> r" for i
      proof (cases "i = mid")
        case True then show ?thesis using c by (simp add: comparator_simps)
      next
        case False
        then have "KeyAt page mid < KeyAt page i" using "1.prems"(2)[of mid i] that mid by simp
        then show ?thesis using c by (simp add: comparator_simps)
      qed
      have up: "key < KeyAt page i" if "res < i" "i \<le> r" for i
      proof (cases "mid \<le> i")
        case True then show ?thesis using big that by simp
      next
        case False then show ?thesis using ih(3)[of i] that by simp
      qed
      show ?thesis unfolding eq using ih(1,2,4) mid(2) up by simp
    qed
  qed
qed

lemma BinaryFind_leaf_slot:
  assumes "0 \<le> GetSize p" and inc: "keys_increasing p 0"
  shows "(BinaryFind_leaf p k = -1 \<and>
            (\<forall>i. 0 \<le> i \<and> i < GetSize p \<longrightarrow> comparator (KeyAt p i) k = 1)) \<or>
         (0 \<le> BinaryFind_leaf p k \<and> BinaryFind_leaf p k < GetSize p \<and>
            comparator (KeyAt p (BinaryFind_leaf p k)) k \<noteq> 1 \<and>
            (\<forall>i. BinaryFind_leaf p k < i \<and> i < GetSize p \<longrightarrow> comparator (KeyAt p i) k = 1))"
proof -
  define r where "r = BinaryFind_loop p k 0 (GetSize p - 1)"
  show ?thesis
  proof (cases "GetSize p = 0")
    case True
    then have "BinaryFind_leaf p k = -1"
      by (simp add: BinaryFind_leaf_def BinaryFind_loop.simps)
    then show ?thesis using True by simp
  next
    case False
    then have ne: "0 \<le> GetSize p - 1" using assms by simp
    have srt: "\<And>i j. 0 \<le> i \<Longrightarrow> i < j \<Longrightarrow> j \<le> GetSize p - 1 \<Longrightarrow> KeyAt p i < KeyAt p j"
      using keys_increasingD[OF inc] by simp
    have lp: "0 \<le> r" "r \<le> GetSize p - 1" "\<And>i. r < i \<Longrightarrow> i \<le> GetSize p - 1 \<Longrightarrow> k < KeyAt p i"
      "0 < r \<Longrightarrow> KeyAt p r \<le> k"
      using BinaryFind_loop_correct[OF ne srt, of k] by (simp_all add: r_def)
    show ?thesis
    proof (cases "k < KeyAt p r")
      case True
      then have r0: "r = 0" using lp(1,4) by (cases "r = 0") simp_all
      have "BinaryFind_leaf p k = -1"
        using True lp(1) by (simp add: BinaryFind_leaf_def r_def[symmetric] comparator_simps)
      moreover have "k < KeyAt p i" if "0 \<le> i" "i < GetSize p" for i
        using that lp(3)[of i] True r0 by (cases "i = 0") simp_all
      ultimately show ?thesis by (simp add: comparator_simps)
    next
      case False
      then have "BinaryFind_leaf p k = r"
        by (simp add: BinaryFind_leaf_def r_def[symmetric] comparator_simps)
      then show ?thesis using False lp(1,2,3) by (simp add: comparator_simps)
    qed
  qed
qed

lemma BinaryFind_internal_slot:
  assumes "0 \<le> GetSize p" and inc: "keys_increasing p 1"
  shows "(BinaryFind_internal p k = 0 \<and>
            (\<forall>i. 1 \<le> i \<and> i < GetSize p \<longrightarrow> comparator (KeyAt p i) k = 1)) \<or>
         (1 \<le> BinaryFind_internal p k \<and> BinaryFind_internal p k < GetSize p \<and>
            comparator (KeyAt p (BinaryFind_internal p k)) k \<noteq> 1 \<and>
            (\<forall>i. BinaryFind_internal p k < i \<and> i < GetSize p \<longrightarrow>
               comparator (KeyAt p i) k = 1))"
proof -
  define r where "r = BinaryFind_loop p k 1 (GetSize p - 1)"
  show ?thesis
  proof (cases "GetSize p \<le> 1")
    case True
    then have "r = GetSize p - 1" by (simp add: r_def BinaryFind_loop.simps)
    moreover have "GetSize p = 0 \<or> GetSize p = 1" using True assms by arith
    ultimately have "BinaryFind_internal p k = 0"
      by (auto simp: BinaryFind_internal_def r_def[symmetric] Let_def)
    then show ?thesis using True by simp
  next
    case False
    then have ne: "1 \<le> GetSize p - 1" by simp
    have srt: "\<And>i j. 1 \<le> i \<Longrightarrow> i < j \<Longrightarrow> j \<le> GetSize p - 1 \<Longrightarrow> KeyAt p i < KeyAt p j"
      using keys_increasingD[OF inc] by simp
    have lp: "1 \<le> r" "r \<le> GetSize p - 1" "\<And>i. r < i \<Longrightarrow> i \<le> GetSize p - 1 \<Longrightarrow> k < KeyAt p i"
      "1 < r \<Longrightarrow> KeyAt p r \<le> k"
      using BinaryFind_loop_correct[OF ne srt, of k] by (simp_all add: r_def)
    show ?thesis
    proof (cases "k < KeyAt p r")
      case True
      then have r1: "r = 1" using lp(1,4) by (cases "r = 1") simp_all
      have "BinaryFind_internal p k = 0"
        using True by (simp add: BinaryFind_internal_def r_def[symmetric] comparator_simps)
      moreover have "k < KeyAt p i" if "1 \<le> i" "i < GetSize p" for i
        using that lp(3)[of i] True r1 by (cases "i = 1") simp_all
      ultimately show ?thesis by (simp add: comparator_simps)
    next
      case False
      then have "BinaryFind_internal p k = r"
        using lp(1) by (simp add: BinaryFind_internal_def r_def[symmetric] comparator_simps)
      then show ?thesis using False lp(1,2,3) by (simp add: comparator_simps)
    qed
  qed
qed

lemma BinaryFind_loop_range:
  "l \<le> r \<Longrightarrow> l \<le> BinaryFind_loop p k l r \<and> BinaryFind_loop p k l r \<le> r"
proof (induction p k l r rule: BinaryFind_loop.induct)
  case (1 page key l r)
  show ?case
  proof (cases "l < r")
    case False
    with "1.prems" show ?thesis by (simp add: BinaryFind_loop.simps)
  next
    case True
    define mid where "mid = drop_bit 1 (l + r + 1)"
    have mid: "l < mid" "mid \<le> r" using True by (auto simp: mid_def drop_bit_eq_div)
    show ?thesis
    proof (cases "comparator (KeyAt page mid) key \<noteq> 1")
      case c: True
      have "BinaryFind_loop page key l r = BinaryFind_loop page key mid r"
        using True c by (subst BinaryFind_loop.simps) (simp add: mid_def Let_def)
      then show ?thesis using "1.IH"(1)[OF True mid_def c] mid by simp
    next
      case c: False
      have "BinaryFind_loop page key l r = BinaryFind_loop page key l (mid - 1)"
        using True c by (subst BinaryFind_loop.simps) (simp add: mid_def Let_def)
      then show ?thesis using "1.IH"(2)[OF True mid_def c] mid by simp
    qed
  qed
qed

lemma BinaryFind_internal_range:
  assumes "1 \<le> GetSize p"
  shows "0 \<le> BinaryFind_internal p k \<and> BinaryFind_internal p k \<le> GetSize p - 1"
proof (cases "GetSize p = 1")
  case True
  then show ?thesis
    by (simp add: BinaryFind_internal_def BinaryFind_loop.simps Let_def)
next
  case False
  with assms have "1 \<le> GetSize p - 1" by simp
  from BinaryFind_loop_range[OF this, of p k] show ?thesis
    by (simp add: BinaryFind_internal_def Let_def)
qed

lemma BinaryFind_internal_not_minus_one: "BinaryFind_internal p k \<noteq> -1"
  by (simp add: BinaryFind_internal_def Let_def)

text \<open>
  Claim C9. On a page of non-negative size, for every search key: if the keys are
  strictly increasing from slot 0, the leaf \<^verbatim>\<open>BinaryFind\<close> returns the largest slot
  whose key is not greater than the search key (that slot's key is \<open>\<le>\<close> the key and
  every later slot's key is greater), and -1 when every key is greater, which includes
  the page of size 0; if the keys are strictly increasing from slot 1, the internal
  \<^verbatim>\<open>BinaryFind\<close> returns the largest slot \<open>\<ge> 1\<close> whose key is not greater than
  the search key, and 0 when there is none.
\<close>

theorem BinaryFind_largest_slot:
  assumes "0 \<le> GetSize p"
  shows "(keys_increasing p 0 \<longrightarrow>
            (BinaryFind_leaf p k = -1 \<and>
               (\<forall>i. 0 \<le> i \<and> i < GetSize p \<longrightarrow> comparator (KeyAt p i) k = 1)) \<or>
            (0 \<le> BinaryFind_leaf p k \<and> BinaryFind_leaf p k < GetSize p \<and>
               comparator (KeyAt p (BinaryFind_leaf p k)) k \<noteq> 1 \<and>
               (\<forall>i. BinaryFind_leaf p k < i \<and> i < GetSize p \<longrightarrow> comparator (KeyAt p i) k = 1))) \<and>
         (keys_increasing p 1 \<longrightarrow>
            (BinaryFind_internal p k = 0 \<and>
               (\<forall>i. 1 \<le> i \<and> i < GetSize p \<longrightarrow> comparator (KeyAt p i) k = 1)) \<or>
            (1 \<le> BinaryFind_internal p k \<and> BinaryFind_internal p k < GetSize p \<and>
               comparator (KeyAt p (BinaryFind_internal p k)) k \<noteq> 1 \<and>
               (\<forall>i. BinaryFind_internal p k < i \<and> i < GetSize p \<longrightarrow>
                  comparator (KeyAt p i) k = 1)))"
  using BinaryFind_leaf_slot[OF assms, of k] BinaryFind_internal_slot[OF assms, of k]
  by blast

text \<open>
  The theorem at the page with keys 1, 3, 5: key 4 is found at slot 1 by both searches,
  key 0 gives -1 on the leaf and 0 on the internal page.
\<close>

theorem BinaryFind_largest_slot_witness:
  "0 \<le> GetSize example_leaf \<and> keys_increasing example_leaf 0 \<and> keys_increasing example_leaf 1 \<and>
   BinaryFind_leaf example_leaf 4 = 1 \<and> BinaryFind_internal example_leaf 4 = 1 \<and>
   BinaryFind_leaf example_leaf 0 = -1 \<and> BinaryFind_internal example_leaf 0 = 0"
proof -
  have h: "0 \<le> GetSize example_leaf" by (simp add: GetSize_def example_leaf_def)
  have inc: "keys_increasing example_leaf 0" "keys_increasing example_leaf 1"
    by (simp_all add: keys_increasing_def GetSize_def KeyAt_def example_leaf_def
                      comparator_def upto.simps)
  have ev: "BinaryFind_leaf example_leaf 4 = 1" "BinaryFind_internal example_leaf 4 = 1"
     "BinaryFind_leaf example_leaf 0 = -1" "BinaryFind_internal example_leaf 0 = 0"
    by code_simp+
  show ?thesis
    using BinaryFind_largest_slot[OF h, of 4] BinaryFind_largest_slot[OF h, of 0] h inc ev
    by simp
qed

section \<open>Range cursor: where \<^verbatim>\<open>Begin(key)\<close> is positioned\<close>

text \<open>The example trees are what the code builds from the empty tree.\<close>

lemma InsertFromFile_full_tree: "InsertFromFile (BPlusTree_new 4 4) [1, 2, 3, 4] = Some full_tree"
  by (simp add: Insert_def Insert_start_def BPlusTree_new_def INVALID_PAGE_ID_def NewPageGuarded_def
    FetchPage_def WritePage_def Init_def SetPageType_def blank_page_def Insert_descend.simps
    IsLeafPage_def BinaryFind_leaf_def BinaryFind_loop.simps GetSize_def Insert_loop.simps
    Insert_level_def Insert_into_page_def Insert_find_pos.simps IncreaseSize_def Insert_shift.simps
    SetKeyAt_def SetValueAt_def GetMaxSize_def comparator_def KeyAt_def full_tree_def full_leaf_def
    Let_def drop_bit_eq_div)


lemma InsertFromFile_append:
  "InsertFromFile t (xs @ ys) = Option.bind (InsertFromFile t xs) (\<lambda>t. InsertFromFile t ys)"
  by (induction xs arbitrary: t) (auto split: option.splits)

lemma InsertFromFile_split_tree:
  "InsertFromFile (BPlusTree_new 4 4) [1, 2, 3, 4, 5] = Some split_tree"
proof -
  have last: "InsertFromFile full_tree [5] = Some split_tree"
    by (simp add: Insert_def Insert_start_def INVALID_PAGE_ID_def NewPageGuarded_def
        FetchPage_def WritePage_def Init_def SetPageType_def blank_page_def Insert_descend.simps
        IsLeafPage_def BinaryFind_leaf_def BinaryFind_loop.simps GetSize_def Insert_loop.simps
        Insert_level_def Insert_into_page_def Insert_find_pos.simps IncreaseSize_def
        Insert_shift.simps SetKeyAt_def SetValueAt_def GetMaxSize_def comparator_def KeyAt_def
        ValueAt_def Let_def drop_bit_eq_div SetSize_def SetNextPageId_def GetNextPageId_def
        move_upper_half.simps Insert_new_root_def full_tree_def full_leaf_def split_tree_def
        split_left_def split_right_def split_root_def)
  have "InsertFromFile (BPlusTree_new 4 4) ([1, 2, 3, 4] @ [5]) = Some split_tree"
    by (simp only: InsertFromFile_append InsertFromFile_full_tree Option.bind.simps last)
  moreover have "[1, 2, 3, 4, 5] = [1, 2, 3, 4] @ [5::int]" by simp
  ultimately show ?thesis by (simp only:)
qed

text \<open>
  On a tree of some height the descent of \<^verbatim>\<open>Begin(key)\<close> returns, with a leaf of
  the pool that is ordered.
\<close>

lemma Begin_loop_returns:
  "ordered_subtree t h pid \<Longrightarrow>
   \<exists>pid' leaf_page. Begin_loop t pid key = Some (Some (pid', leaf_page)) \<and>
      FetchPage t pid' = Some leaf_page \<and> IsLeafPage leaf_page \<and>
      0 \<le> GetSize leaf_page \<and> keys_increasing leaf_page 0"
proof (induction h arbitrary: pid)
  case 0
  then obtain p where "FetchPage t pid = Some p" "IsLeafPage p"
    "0 \<le> GetSize p" "keys_increasing p 0"
    by (auto split: option.splits)
  then show ?case by (subst Begin_loop.simps) simp
next
  case (Suc h)
  then obtain p where p: "FetchPage t pid = Some p" "\<not> IsLeafPage p" "1 \<le> GetSize p"
    "list_all (\<lambda>i. ordered_subtree t h (ValueAt p i)) [0..GetSize p - 1]"
    by (auto split: option.splits)
  define slot where "slot = BinaryFind_internal p key"
  have "0 \<le> slot \<and> slot \<le> GetSize p - 1"
    using BinaryFind_internal_range[OF p(3)] by (simp add: slot_def)
  then have "ordered_subtree t h (ValueAt p slot)"
    using p(4) by (simp add: list_all_iff)
  from Suc.IH[OF this] obtain pid' leaf_page where
    "Begin_loop t (ValueAt p slot) key = Some (Some (pid', leaf_page))"
    "FetchPage t pid' = Some leaf_page" "IsLeafPage leaf_page"
    "0 \<le> GetSize leaf_page" "keys_increasing leaf_page 0"
    by blast
  moreover have "slot \<noteq> -1" by (simp add: slot_def BinaryFind_internal_not_minus_one)
  ultimately show ?case using p(1,2)
    by (subst Begin_loop.simps) (simp add: Let_def slot_def[symmetric])
qed

text \<open>
  Where the code puts the cursor. On a non-empty tree (the pages below the root form a
  tree of some height, every leaf of it has a non-negative size and strictly increasing
  keys), \<^verbatim>\<open>Begin(key)\<close> returns: its descent reaches a leaf, and the cursor is at the
  largest slot of that leaf whose key is less than or equal to \<open>key\<close>; it is the end
  cursor when every key of the reached leaf is greater than \<open>key\<close>.
\<close>

lemma Begin_key_largest_slot_le:
  assumes "root_page_id t \<noteq> INVALID_PAGE_ID"
    and "ordered_subtree t h (root_page_id t)"
  shows "\<exists>pid leaf_page.
           Begin_loop t (root_page_id t) key = Some (Some (pid, leaf_page)) \<and>
           FetchPage t pid = Some leaf_page \<and> IsLeafPage leaf_page \<and>
           ((Begin_key t key = Some End \<and>
               (\<forall>i. 0 \<le> i \<and> i < GetSize leaf_page \<longrightarrow>
                  comparator (KeyAt leaf_page i) key = 1)) \<or>
            (\<exists>slot. Begin_key t key = Some (pid, slot) \<and>
               0 \<le> slot \<and> slot < GetSize leaf_page \<and>
               comparator (KeyAt leaf_page slot) key \<noteq> 1 \<and>
               (\<forall>i. slot < i \<and> i < GetSize leaf_page \<longrightarrow>
                  comparator (KeyAt leaf_page i) key = 1)))"
proof -
  from Begin_loop_returns[OF assms(2), of key] obtain pid leaf_page where
    reach: "Begin_loop t (root_page_id t) key = Some (Some (pid, leaf_page))"
      "FetchPage t pid = Some leaf_page" "IsLeafPage leaf_page" and
    ord: "0 \<le> GetSize leaf_page" "keys_increasing leaf_page 0"
    by blast
  have bk: "Begin_key t key =
      (if BinaryFind_leaf leaf_page key \<noteq> -1 then Some (pid, BinaryFind_leaf leaf_page key)
       else Some End)"
    using assms(1) reach(1) by (simp add: Begin_key_def Let_def)
  have "(Begin_key t key = Some End \<and>
               (\<forall>i. 0 \<le> i \<and> i < GetSize leaf_page \<longrightarrow>
                  comparator (KeyAt leaf_page i) key = 1)) \<or>
            (\<exists>slot. Begin_key t key = Some (pid, slot) \<and>
               0 \<le> slot \<and> slot < GetSize leaf_page \<and>
               comparator (KeyAt leaf_page slot) key \<noteq> 1 \<and>
               (\<forall>i. slot < i \<and> i < GetSize leaf_page \<longrightarrow>
                  comparator (KeyAt leaf_page i) key = 1))"
    using BinaryFind_leaf_slot[OF ord, of key]
  proof
    assume "BinaryFind_leaf leaf_page key = - 1 \<and>
      (\<forall>i. 0 \<le> i \<and> i < GetSize leaf_page \<longrightarrow> comparator (KeyAt leaf_page i) key = 1)"
    then show ?thesis using bk by simp
  next
    assume a: "0 \<le> BinaryFind_leaf leaf_page key \<and>
      BinaryFind_leaf leaf_page key < GetSize leaf_page \<and>
      comparator (KeyAt leaf_page (BinaryFind_leaf leaf_page key)) key \<noteq> 1 \<and>
      (\<forall>i. BinaryFind_leaf leaf_page key < i \<and> i < GetSize leaf_page \<longrightarrow>
           comparator (KeyAt leaf_page i) key = 1)"
    then have "Begin_key t key = Some (pid, BinaryFind_leaf leaf_page key)"
      using bk by auto
    with a show ?thesis by blast
  qed
  with reach show ?thesis by blast
qed

text \<open>
  On the tree built from 1, 2, 3, 4, 5, for the key 6: the descent reaches leaf 1 and
  the cursor is at its slot 2, which holds the key 5.
\<close>

lemma Begin_key_largest_slot_le_example:
  "root_page_id split_tree \<noteq> INVALID_PAGE_ID \<and>
   ordered_subtree split_tree 1 (root_page_id split_tree) \<and>
   Begin_loop split_tree (root_page_id split_tree) 6 = Some (Some (1, split_right)) \<and>
   Begin_key split_tree 6 = Some (1, 2) \<and> KeyAt split_right 2 = 5"
proof -
  have h1: "root_page_id split_tree \<noteq> INVALID_PAGE_ID"
    by (simp add: split_tree_def INVALID_PAGE_ID_def)
  have h2: "ordered_subtree split_tree 1 (root_page_id split_tree)"
    by (simp add: split_tree_def FetchPage_def IsLeafPage_def GetSize_def ValueAt_def KeyAt_def
        keys_increasing_def comparator_def
        split_root_def split_left_def split_right_def upto.simps)
  have ev: "Begin_loop split_tree (root_page_id split_tree) 6 = Some (Some (1, split_right))"
    by (simp add: Begin_loop.simps split_tree_def FetchPage_def IsLeafPage_def GetSize_def
        ValueAt_def KeyAt_def BinaryFind_internal_def BinaryFind_loop.simps comparator_def
        split_root_def split_left_def split_right_def Let_def)
  have ev2: "Begin_key split_tree 6 = Some (1, 2)" "KeyAt split_right 2 = 5"
    by code_simp+
  show ?thesis
    using Begin_key_largest_slot_le[OF h1 h2, of 6] h1 h2 ev ev2 by simp
qed

text \<open>
  For a key that the reached leaf holds, this is the slot of the key, and every earlier
  slot holds a smaller key: the cursor is at the first slot whose key is \<open>\<ge> key\<close>.
\<close>

lemma Begin_key_stored_key:
  assumes "root_page_id t \<noteq> INVALID_PAGE_ID"
    and "ordered_subtree t h (root_page_id t)"
  shows "\<exists>pid leaf_page.
           Begin_loop t (root_page_id t) key = Some (Some (pid, leaf_page)) \<and>
           FetchPage t pid = Some leaf_page \<and> IsLeafPage leaf_page \<and>
           (\<forall>slot. 0 \<le> slot \<and> slot < GetSize leaf_page \<and> KeyAt leaf_page slot = key \<longrightarrow>
              Begin_key t key = Some (pid, slot) \<and>
              (\<forall>i. 0 \<le> i \<and> i < slot \<longrightarrow> comparator (KeyAt leaf_page i) key = -1))"
proof -
  from Begin_loop_returns[OF assms(2), of key] obtain pid leaf_page where
    reach: "Begin_loop t (root_page_id t) key = Some (Some (pid, leaf_page))"
      "FetchPage t pid = Some leaf_page" "IsLeafPage leaf_page" and
    ord: "0 \<le> GetSize leaf_page" "keys_increasing leaf_page 0"
    by blast
  define r where "r = BinaryFind_leaf leaf_page key"
  have bk: "Begin_key t key = (if r \<noteq> -1 then Some (pid, r) else Some End)"
    using assms(1) reach(1) by (simp add: Begin_key_def Let_def r_def)
  have "Begin_key t key = Some (pid, slot) \<and>
        (\<forall>i. 0 \<le> i \<and> i < slot \<longrightarrow> comparator (KeyAt leaf_page i) key = -1)"
    if s: "0 \<le> slot" "slot < GetSize leaf_page" "KeyAt leaf_page slot = key" for slot
  proof -
    have below: "comparator (KeyAt leaf_page i) key = -1" if "0 \<le> i" "i < slot" for i
      using keys_increasingD[OF ord(2) that(1) that(2) s(2)] s(3)
      by (simp add: comparator_simps)
    from BinaryFind_leaf_slot[OF ord, of key] have "r = slot"
    proof
      assume "BinaryFind_leaf leaf_page key = - 1 \<and>
        (\<forall>i. 0 \<le> i \<and> i < GetSize leaf_page \<longrightarrow> comparator (KeyAt leaf_page i) key = 1)"
      then have "comparator (KeyAt leaf_page slot) key = 1" using s(1,2) by blast
      then show ?thesis using s(3) by (simp add: comparator_simps)
    next
      assume a: "0 \<le> BinaryFind_leaf leaf_page key \<and>
        BinaryFind_leaf leaf_page key < GetSize leaf_page \<and>
        comparator (KeyAt leaf_page (BinaryFind_leaf leaf_page key)) key \<noteq> 1 \<and>
        (\<forall>i. BinaryFind_leaf leaf_page key < i \<and> i < GetSize leaf_page \<longrightarrow>
             comparator (KeyAt leaf_page i) key = 1)"
      then have r: "0 \<le> r" "r < GetSize leaf_page" "KeyAt leaf_page r \<le> key"
        "\<And>i. r < i \<Longrightarrow> i < GetSize leaf_page \<Longrightarrow> key < KeyAt leaf_page i"
        by (simp_all add: r_def comparator_simps)
      show ?thesis
      proof (rule ccontr)
        assume ne: "r \<noteq> slot"
        show False
        proof (cases "r < slot")
          case True
          from r(4)[OF True s(2)] s(3) show False by simp
        next
          case False
          with ne have "slot < r" by simp
          from keys_increasingD[OF ord(2) s(1) this r(2)] s(3) r(3) show False by simp
        qed
      qed
    qed
    then have "Begin_key t key = Some (pid, slot)" using bk s(1) by simp
    with below show ?thesis by blast
  qed
  with reach show ?thesis by blast
qed

text \<open>
  Claim C7 (\<^verbatim>\<open>Begin(key)\<close> is positioned at the first leaf slot whose key is
  \<open>\<ge> key\<close>, and is the end cursor only if the reached leaf has no such slot),
  evaluated on the code for keys that are not stored: in the tree built from 1, 3, 5
  (one root leaf, page 0), \<^verbatim>\<open>Begin(2)\<close> is positioned at slot 0, whose key 1 is
  smaller than 2 (the first slot with a key \<open>\<ge> 2\<close> is slot 1, key 3), and
  \<^verbatim>\<open>Begin(0)\<close> is the end cursor although every slot of the leaf holds a key
  \<open>\<ge> 0\<close>. The slot returned by the leaf \<^verbatim>\<open>BinaryFind\<close> is used without the
  comparison with \<open>key\<close> that \<^verbatim>\<open>GetValue\<close>, \<^verbatim>\<open>Insert\<close> and \<^verbatim>\<open>Remove\<close>
  make after it.
\<close>

theorem Begin_key_not_first_slot_ge:
  "do { t \<leftarrow> InsertFromFile (BPlusTree_new 4 4) [1, 3, 5];
        leaf \<leftarrow> FetchPage t (root_page_id t);
        (pid2, slot2) \<leftarrow> Begin_key t 2;
        at0 \<leftarrow> Begin_key t 0;
        Some (IsLeafPage leaf, map (KeyAt leaf) [0..GetSize leaf - 1],
              (pid2, slot2), pid2 = root_page_id t, 2 \<le> KeyAt leaf slot2, at0 = End) }
   = Some (True, [1, 3, 5], (0, 0), True, False, True)"
  by code_simp

section \<open>Insertion: the split of an overfull page\<close>

lemma Insert_shift_header:
  "cur_size (Insert_shift page j pos) = cur_size page \<and>
   max_size (Insert_shift page j pos) = max_size page \<and>
   next_page_id (Insert_shift page j pos) = next_page_id page"
proof (induction page j pos rule: Insert_shift.induct)
  case (1 page j pos)
  show ?case
  proof (cases "j > pos")
    case True
    then show ?thesis using "1.IH"
      by (subst (1 2 3) Insert_shift.simps) (simp add: SetKeyAt_def SetValueAt_def)
  next
    case False
    then show ?thesis by (simp add: Insert_shift.simps)
  qed
qed

lemma Insert_into_page_header:
  "GetSize (Insert_into_page page key val) = GetSize page + 1"
  "GetMaxSize (Insert_into_page page key val) = GetMaxSize page"
  "GetNextPageId (Insert_into_page page key val) = GetNextPageId page"
  by (simp_all add: Insert_into_page_def Let_def GetSize_def GetMaxSize_def GetNextPageId_def
        SetKeyAt_def SetValueAt_def IncreaseSize_def Insert_shift_header)

lemma move_upper_half_header:
  "cur_size (move_upper_half src dst half j) = cur_size dst \<and>
   max_size (move_upper_half src dst half j) = max_size dst \<and>
   page_type (move_upper_half src dst half j) = page_type dst \<and>
   next_page_id (move_upper_half src dst half j) = next_page_id dst"
proof (induction src dst half j rule: move_upper_half.induct)
  case (1 src dst half j)
  show ?case
  proof (cases "j < GetSize src")
    case True
    then show ?thesis using "1.IH"
      by (subst (1 2 3 4) move_upper_half.simps) (simp add: SetKeyAt_def SetValueAt_def)
  next
    case False
    then show ?thesis by (simp add: move_upper_half.simps)
  qed
qed

lemma move_upper_half_slots:
  "KeyAt (move_upper_half src dst half j) i =
     (if j - half \<le> i \<and> i < GetSize src - half then KeyAt src (i + half) else KeyAt dst i) \<and>
   ValueAt (move_upper_half src dst half j) i =
     (if j - half \<le> i \<and> i < GetSize src - half then ValueAt src (i + half) else ValueAt dst i)"
proof (induction src dst half j rule: move_upper_half.induct)
  case (1 src dst half j)
  show ?case
  proof (cases "j < GetSize src")
    case True
    have "i = j - half \<Longrightarrow> i + half = j" by simp
    then show ?thesis using True "1.IH"
      by (subst (1 2) move_upper_half.simps)
         (auto simp: SetKeyAt_def SetValueAt_def KeyAt_def ValueAt_def)
  next
    case False
    then show ?thesis by (simp add: move_upper_half.simps)
  qed
qed

text \<open>
  Claim C8, as the code has it. When the insertion into the page \<open>pid\<close> of a level
  (leaf or internal) makes its size exceed \<open>max_size\<close>, in particular when it becomes
  \<open>max_size + 1\<close>, the page is split: with \<open>size\<close> the overfull size, the original
  (left) page keeps the first \<open>\<lfloor>size / 2\<rfloor>\<close> entries, at a leaf as well as at an
  internal page, the newly allocated page receives the remaining
  \<open>size - \<lfloor>size / 2\<rfloor>\<close> entries in order, and the carried key is the first key of the new
  page. The page id handed out by the pool is assumed not to be in use for the page
  split.
\<close>

theorem Insert_level_split:
  assumes "FetchPage t pid = Some page"
    and "pid \<noteq> next_free_id t"
    and "GetMaxSize page < GetSize page + 1"
  shows "\<exists>t' left right.
           Insert_level is_leaf t pid key val = Some (t', Some (KeyAt right 0, next_free_id t)) \<and>
           FetchPage t' pid = Some left \<and> FetchPage t' (next_free_id t) = Some right \<and>
           GetSize left = (GetSize page + 1) div 2 \<and>
           GetSize right = (GetSize page + 1) - (GetSize page + 1) div 2 \<and>
           (\<forall>j. KeyAt left j = KeyAt (Insert_into_page page key val) j \<and>
                ValueAt left j = ValueAt (Insert_into_page page key val) j) \<and>
           (\<forall>j. 0 \<le> j \<and> j < GetSize right \<longrightarrow>
                KeyAt right j = KeyAt (Insert_into_page page key val) (GetSize left + j) \<and>
                ValueAt right j = ValueAt (Insert_into_page page key val) (GetSize left + j))"
proof -
  define full where "full = Insert_into_page page key val"
  define new_id where "new_id = next_free_id t"
  define half where "half = GetSize full div 2"
  define page' where "page' = (if is_leaf then SetNextPageId full new_id else full)"
  define new0 where "new0 =
    SetSize
     (let new_page = Init blank_page (if is_leaf then leaf_max_size t else internal_max_size t);
          new_page = SetPageType new_page (if is_leaf then LEAF_PAGE else INTERNAL_PAGE)
      in if is_leaf then SetNextPageId new_page (GetNextPageId full) else new_page)
     (GetSize full - half)"
  define right where "right = move_upper_half page' new0 half half"
  define left where "left = SetSize page' half"
  define t' where "t' = WritePage (WritePage (snd (NewPageGuarded t)) pid left) new_id right"
  have fsz: "GetSize full = GetSize page + 1" "GetMaxSize full = GetMaxSize page"
    by (simp_all add: full_def Insert_into_page_header)
  have p'sz: "GetSize page' = GetSize full"
    by (simp add: page'_def GetSize_def SetNextPageId_def)
  have p'slots: "KeyAt page' j = KeyAt full j" "ValueAt page' j = ValueAt full j" for j
    by (simp_all add: page'_def KeyAt_def ValueAt_def SetNextPageId_def)
  have run: "Insert_level is_leaf t pid key val = Some (t', Some (KeyAt right 0, new_id))"
    using assms(1,3) fsz
    by (simp add: Insert_level_def Let_def full_def[symmetric] NewPageGuarded_def FetchPage_def
        new_id_def[symmetric] t'_def left_def right_def new0_def page'_def half_def
        GetSize_def GetMaxSize_def SetNextPageId_def SetSize_def
        assms(2)[unfolded new_id_def[symmetric]])
  have f1: "FetchPage t' pid = Some left" "FetchPage t' new_id = Some right"
    using assms(2) by (simp_all add: t'_def FetchPage_def WritePage_def new_id_def)
  have lsz: "GetSize left = (GetSize page + 1) div 2"
    by (simp add: left_def SetSize_def GetSize_def half_def fsz[unfolded GetSize_def])
  have rsz: "GetSize right = (GetSize page + 1) - (GetSize page + 1) div 2"
    by (simp add: right_def GetSize_def move_upper_half_header new0_def SetSize_def half_def
        fsz[unfolded GetSize_def])
  have lslots: "KeyAt left j = KeyAt full j \<and> ValueAt left j = ValueAt full j" for j
    using p'slots[of j] by (simp add: left_def KeyAt_def ValueAt_def SetSize_def)
  have rslots: "KeyAt right j = KeyAt full (GetSize left + j) \<and>
                ValueAt right j = ValueAt full (GetSize left + j)"
    if "0 \<le> j" "j < GetSize right" for j
  proof -
    have "j < GetSize page' - half" using that(2) rsz p'sz fsz by (simp add: half_def)
    then show ?thesis
      using that(1) p'slots lsz fsz
      by (simp add: right_def move_upper_half_slots half_def add.commute)
  qed
  show ?thesis
    using run f1 lsz rsz lslots rslots unfolding new_id_def full_def by blast
qed


text \<open>
  The theorem at the full root leaf 1, 2, 3, 4 and the new key 5: the left leaf keeps
  2 entries, the new leaf (page 1) gets 3, and the carried key is 3.
\<close>

theorem Insert_level_split_witness:
  "FetchPage full_tree 0 = Some full_leaf \<and> 0 \<noteq> next_free_id full_tree \<and>
   GetMaxSize full_leaf < GetSize full_leaf + 1 \<and>
   do { (t', carry) \<leftarrow> Insert_level True full_tree 0 5 5;
        left \<leftarrow> FetchPage t' 0;
        right \<leftarrow> FetchPage t' 1;
        Some (carry, GetSize left, GetSize right, KeyAt right 0) }
   = Some (Some (3, 1), 2, 3, 3)"
proof -
  have h1: "FetchPage full_tree 0 = Some full_leaf"
    by (simp add: FetchPage_def full_tree_def)
  have h2: "0 \<noteq> next_free_id full_tree" by (simp add: full_tree_def)
  have h3: "GetMaxSize full_leaf < GetSize full_leaf + 1"
    by (simp add: GetMaxSize_def GetSize_def full_leaf_def)
  have ev: "do { (t', carry) \<leftarrow> Insert_level True full_tree 0 5 5;
        left \<leftarrow> FetchPage t' 0;
        right \<leftarrow> FetchPage t' 1;
        Some (carry, GetSize left, GetSize right, KeyAt right 0) }
   = Some (Some (3, 1), 2, 3, 3)"
    by code_simp
  show ?thesis
    using Insert_level_split[OF h1 h2 h3, of True 5 5] h1 h2 h3 ev by simp
qed

text \<open>
  Claim C8 as stated (a leaf keeps \<open>\<lfloor>(size + 1) / 2\<rfloor>\<close> entries) fails for the leaf
  1, 2, 3, 4 with \<open>max_size = 4\<close>: inserting 5 overfills it to size 5, and after the
  split the left leaf holds 2 entries, not 3; the new leaf holds 3.
\<close>

theorem Insert_leaf_split_left_keeps_floor_half:
  "do { t \<leftarrow> InsertFromFile (BPlusTree_new 4 4) [1, 2, 3, 4];
        full \<leftarrow> FetchPage t (root_page_id t);
        t' \<leftarrow> InsertFromFile t [5];
        left \<leftarrow> FetchPage t' 0;
        right \<leftarrow> FetchPage t' 1;
        Some (IsLeafPage full, GetSize full + 1, GetMaxSize full + 1, IsLeafPage left,
              GetSize left, GetSize right, GetSize left = (GetSize full + 1 + 1) div 2) }
   = Some (True, 5, 5, True, 2, 3, False)"
  by code_simp

section \<open>Insertion: a key that the lookup finds\<close>

text \<open>
  The descent of \<^verbatim>\<open>Insert\<close> reaches the leaf that the descent of \<^verbatim>\<open>GetValue\<close>
  reaches. So for a key that \<^verbatim>\<open>GetValue\<close> finds, \<^verbatim>\<open>Insert\<close> returns false and
  leaves every page and the header as they are.
\<close>

lemma GetValue_loop_Insert_descend:
  assumes "GetValue_loop t pid key = Some leaf_page"
  shows "\<exists>road'. Insert_descend t pid key road = Some (road', leaf_page)"
proof -
  have "\<forall>road. \<exists>road'. Insert_descend t pid key road = Some (road', leaf_page)"
  proof (rule GetValue_loop.raw_induct
      [where P = "\<lambda>t pid key leaf_page.
                    \<forall>road. \<exists>road'. Insert_descend t pid key road = Some (road', leaf_page)",
       OF _ assms])
    fix loop t pid key leaf_page
    assume IH: "\<And>t pid key y. loop t pid key = Some y \<Longrightarrow>
                  \<forall>road. \<exists>road'. Insert_descend t pid key road = Some (road', y)"
    assume eq: "(case FetchPage t pid of
                   None \<Rightarrow> None
                 | Some tmp_page \<Rightarrow>
                     if IsLeafPage tmp_page then Some tmp_page
                     else loop t (ValueAt tmp_page (BinaryFind_internal tmp_page key)) key)
                = Some leaf_page"
    show "\<forall>road. \<exists>road'. Insert_descend t pid key road = Some (road', leaf_page)"
    proof (cases "FetchPage t pid")
      case None
      with eq show ?thesis by simp
    next
      case (Some tmp_page)
      show ?thesis
      proof (cases "IsLeafPage tmp_page")
        case True
        with Some eq have "leaf_page = tmp_page" by simp
        with Some True show ?thesis by (subst Insert_descend.simps) simp
      next
        case False
        with Some eq
        have "loop t (ValueAt tmp_page (BinaryFind_internal tmp_page key)) key = Some leaf_page"
          by simp
        from IH[OF this] Some False show ?thesis
          by (subst Insert_descend.simps) (simp add: Let_def)
      qed
    qed
  qed
  then show ?thesis by blast
qed

lemma Insert_of_found_key:
  assumes "GetValue t key result = Some (True, result')"
  shows "Insert t key val = Some (False, t)"
proof -
  from assms have root: "root_page_id t \<noteq> INVALID_PAGE_ID"
    by (auto simp: GetValue_def split: if_splits)
  with assms obtain leaf_page where
    leaf: "GetValue_loop t (root_page_id t) key = Some leaf_page" and
    found: "BinaryFind_leaf leaf_page key \<noteq> -1 \<and>
            comparator (KeyAt leaf_page (BinaryFind_leaf leaf_page key)) key = 0"
    by (auto simp: GetValue_def Let_def split: if_splits option.splits)
  from GetValue_loop_Insert_descend[OF leaf] obtain road where
    "Insert_descend t (root_page_id t) key [root_page_id t] = Some (road, leaf_page)"
    by blast
  moreover have "Insert_start t = Some t" using root by (simp add: Insert_start_def)
  ultimately show ?thesis using found by (simp add: Insert_def Let_def)
qed

section \<open>Insertion: runs of the code with fan-out 4\<close>

text \<open>
  Claim C1 (lookup after inserting a key set in any order), evaluated on the code with
  \<open>leaf_max = internal_max = 4\<close>: after the distinct keys 10, 20, 30, 40, 50, 1, 2, 3
  have been inserted in this order into the empty tree, \<^verbatim>\<open>GetValue\<close> reports the
  inserted keys 1 and 2 absent (key 3 is found). The split of the leftmost leaf carries
  the key 3 into the root, whose \<open>pos\<close> search starts at slot 0 and compares with the
  stored key 10 of slot 0, so the new leaf is placed in front of the old one.
\<close>

theorem GetValue_after_InsertFromFile_misses_key:
  "do { t \<leftarrow> InsertFromFile (BPlusTree_new 4 4) [10, 20, 30, 40, 50, 1, 2, 3];
        get1 \<leftarrow> GetValue t 1 [];
        get2 \<leftarrow> GetValue t 2 [];
        get3 \<leftarrow> GetValue t 3 [];
        Some (get1, get2, get3) }
   = Some ((False, []), (False, []), (True, [3]))"
  by code_simp

text \<open>
  Claim C10 (an insert changes only the binding of its key), evaluated on the code: in
  the tree built from 10, 20, 30, 40, 50, 1, 2 the key 3 is absent and key 1 is found
  with value 1; \<^verbatim>\<open>Insert(3, 3)\<close> returns true, and afterwards \<^verbatim>\<open>GetValue\<close> reports
  key 1 absent.
\<close>

theorem Insert_changes_lookup_of_other_key:
  "do { t \<leftarrow> InsertFromFile (BPlusTree_new 4 4) [10, 20, 30, 40, 50, 1, 2];
        before3 \<leftarrow> GetValue t 3 [];
        before1 \<leftarrow> GetValue t 1 [];
        (inserted, t') \<leftarrow> Insert t 3 3;
        after1 \<leftarrow> GetValue t' 1 [];
        Some (before3, before1, inserted, after1) }
   = Some ((False, []), (True, [1]), True, (False, []))"
  by code_simp

text \<open>
  Claim C3 (a duplicate insert returns false), evaluated on the code: in the tree built
  from 10, 20, 30, 40, 50, 1, 2, \<^verbatim>\<open>Insert(0, 0)\<close> returns true, the key 0 is then
  reported absent, and a second \<^verbatim>\<open>Insert(0, 0)\<close> with no remove in between returns
  true again.
\<close>

theorem Insert_twice_returns_true_twice:
  "do { t \<leftarrow> InsertFromFile (BPlusTree_new 4 4) [10, 20, 30, 40, 50, 1, 2];
        (first, t) \<leftarrow> Insert t 0 0;
        get0 \<leftarrow> GetValue t 0 [];
        (second, t) \<leftarrow> Insert t 0 0;
        Some (first, get0, second) }
   = Some (True, (False, []), True)"
  by code_simp

section \<open>Removal: runs of the code with fan-out 4\<close>

text \<open>
  Claim C2 (removing every inserted key empties the tree), evaluated on the code: after
  1, 2, 3, 4, 5 have been inserted in ascending order and then removed in descending
  order 5, 4, 3, 2, 1, the header's root id is page 0, not \<open>INVALID_PAGE_ID\<close>, and
  that root leaf still holds one entry, the key 3. (\<^verbatim>\<open>Remove(4)\<close> merges the leaf
  {3} into its left sibling {1, 2} and overwrites the key 2, so the sibling holds
  1, 3, 3.)
\<close>

theorem RemoveFromFile_all_keys_not_empty:
  "do { t \<leftarrow> InsertFromFile (BPlusTree_new 4 4) [1, 2, 3, 4, 5];
        t \<leftarrow> RemoveFromFile t [5, 4, 3, 2, 1];
        root \<leftarrow> FetchPage t (root_page_id t);
        Some (root_page_id t, IsEmpty t, IsLeafPage root,
              map (KeyAt root) [0..GetSize root - 1]) }
   = Some (0, False, True, [3])"
  by code_simp

text \<open>
  Claim C4 (an underfull leftmost child is left alone and \<^verbatim>\<open>Remove\<close> returns),
  evaluated on the code: the tree built from 1, 2, 3, 4, 5 has the root page 2 with two
  slots over the leaves 0 = {1, 2} and 1 = {3, 4, 5}. \<^verbatim>\<open>Remove(1)\<close> makes leaf 0
  underfull at parent slot 0; the leaf level signals that the loop goes on, the next
  iteration removes slot 0 of the parent, and the root collapses: the header's root is
  leaf 1, page 2 is deleted, and key 2 is no longer found.
\<close>

theorem Remove_leftmost_underflow_drops_parent_slot:
  "do { t \<leftarrow> InsertFromFile (BPlusTree_new 4 4) [1, 2, 3, 4, 5];
        before2 \<leftarrow> GetValue t 2 [];
        (_, go_on) \<leftarrow> Remove_leaf_level t [(2, 0), (0, 0)] 1;
        t' \<leftarrow> Remove t 1;
        after2 \<leftarrow> GetValue t' 2 [];
        Some (root_page_id t, map_option GetSize (FetchPage t 2), before2, go_on,
              root_page_id t', map_option GetSize (FetchPage t' 2), after2) }
   = Some (2, Some 2, (True, [2]), True, 1, None, (False, []))"
  by code_simp

text \<open>
  Claim C5 (the entries of an underfull leaf are appended after the left sibling's
  entries), evaluated on the code: from the tree built from 1, 2, 3, 4, 5, after
  \<^verbatim>\<open>Remove(3)\<close> the left sibling (page 0) holds the keys 1, 2 and the leaf (page 1)
  holds 4, 5. \<^verbatim>\<open>Remove(4)\<close> leaves the leaf with the one key 5 and merges: the
  sibling then holds the keys 1, 5, 3 in its three slots. The key 5 was written at the
  slot given by the leaf's size (slot 1), over the sibling's key 2, and slot 2 holds what
  was left there before.
\<close>

theorem Remove_leaf_merge_overwrites_sibling:
  "do { t \<leftarrow> InsertFromFile (BPlusTree_new 4 4) [1, 2, 3, 4, 5];
        t \<leftarrow> Remove t 3;
        sibling \<leftarrow> FetchPage t 0;
        leaf \<leftarrow> FetchPage t 1;
        t' \<leftarrow> Remove t 4;
        merged \<leftarrow> FetchPage t' 0;
        get2 \<leftarrow> GetValue t' 2 [];
        Some (map (KeyAt sibling) [0..GetSize sibling - 1],
              map (KeyAt leaf) [0..GetSize leaf - 1],
              map (KeyAt merged) [0..GetSize merged - 1], get2) }
   = Some ([1, 2], [4, 5], [1, 5, 3], (False, []))"
  by code_simp

text \<open>
  Claim C6 (the internal merge appends the parent's separator at this child's slot with
  the first child, then the remaining pairs, each child once), evaluated on the code:
  in the tree built from 1, ..., 15 the root (page 7) holds (1, 2), (5, 6), (9, 10);
  the internal page 6 at root slot 1 holds (5, 3), (7, 4) and its left sibling, page 2,
  holds (1, 0), (3, 1). \<^verbatim>\<open>Remove(7)\<close> leaves page 6 with the one pair (5, 3) and
  merges it into page 2, which then holds (1, 0), (3, 1), (1, 3), (5, 3): the first
  appended pair carries the root's key of slot 0 (not the separator 5 of slot 1), and
  the child page 3 appears twice.
\<close>

theorem Remove_internal_merge_duplicates_child:
  "do { t \<leftarrow> InsertFromFile (BPlusTree_new 4 4)
               [1, 2, 3, 4, 5, 6, 7, 8, 9, 10, 11, 12, 13, 14, 15];
        parent \<leftarrow> FetchPage t (root_page_id t);
        node \<leftarrow> FetchPage t 6;
        sibling \<leftarrow> FetchPage t 2;
        t' \<leftarrow> Remove t 7;
        merged \<leftarrow> FetchPage t' 2;
        Some (root_page_id t,
              map (\<lambda>j. (KeyAt parent j, ValueAt parent j)) [0..GetSize parent - 1],
              map (\<lambda>j. (KeyAt sibling j, ValueAt sibling j)) [0..GetSize sibling - 1],
              map (\<lambda>j. (KeyAt node j, ValueAt node j)) [0..GetSize node - 1],
              map (\<lambda>j. (KeyAt merged j, ValueAt merged j)) [0..GetSize merged - 1]) }
   = Some (7, [(1, 2), (5, 6), (9, 10)], [(1, 0), (3, 1)], [(5, 3), (7, 4)],
           [(1, 0), (3, 1), (1, 3), (5, 3)])"
  by code_simp

end
